theory Spec2Isabelle
  imports Complex_Main
begin

section \<open>The user registry service of container-express-app/src/index.js\<close>

text \<open>
  The service is an Express application over one in-memory array:
  \<^verbatim>\<open>
  const PORT = 3000;
  const users = [];
  app.use(bodyParser.json());
  app.get('/', (req, res) => { res.send('Hello, World!'); });
  app.get('/users', (req, res) => { return res.json({ users }); });
  app.post('/users', (req, res) => {
      const newUserId = req.body.userId;
      if (!newUserId) { return res.status(400).send('Missing user Id'); }
      if (users.includes(newUserId)) { return res.status(400).send('User already exists'); }
      users.push(newUserId);
      return res.status(201).send('User registered successfully.');
  });
  app.listen(PORT, ...);
  \<close>
  The array \<open>users\<close> is threaded through the handlers as explicit state. The code is
  untyped JavaScript, so \<open>req.body.userId\<close> is any value that \<open>JSON.parse\<close> can
  produce, or \<open>undefined\<close> when the field is absent.
\<close>

subsection \<open>JSON documents and JavaScript values\<close>

text \<open>
  A parsed number is a double: a finite value (given here by its exact rational value, with
  \<open>-0\<close> and \<open>0\<close> identified, which neither \<open>!\<close> nor \<open>includes\<close> tells apart) or an
  infinity, which \<open>JSON.parse\<close> yields for a literal beyond the double range. JSON has no
  NaN.
\<close>

datatype jsnum = Finite rat | PosInf | NegInf

datatype json =
    JNull
  | JBool bool
  | JNum jsnum
  | JStr string
  | JArr "json list"
  | JObj "(string \<times> json) list"

text \<open>
  A JavaScript value is a primitive or a reference to an object. Arrays and objects are
  compared by identity, so a reference carries the address of the object and, for
  reading, its (never mutated) content.
\<close>

datatype jsval =
    VUndefined
  | VNull
  | VBool bool
  | VNum jsnum
  | VStr string
  | VRef nat json

text \<open>\<open>ToBoolean\<close>, the test behind \<open>!newUserId\<close>.\<close>

fun to_boolean :: "jsval \<Rightarrow> bool" where
  "to_boolean VUndefined = False"
| "to_boolean VNull = False"
| "to_boolean (VBool b) = b"
| "to_boolean (VNum n) = (n \<noteq> Finite 0)"
| "to_boolean (VStr s) = (s \<noteq> [])"
| "to_boolean (VRef a c) = True"

text \<open>\<open>SameValueZero\<close>, the comparison of \<open>Array.prototype.includes\<close>.\<close>

fun same_value_zero :: "jsval \<Rightarrow> jsval \<Rightarrow> bool" where
  "same_value_zero VUndefined y = (y = VUndefined)"
| "same_value_zero VNull y = (y = VNull)"
| "same_value_zero (VBool a) y = (y = VBool a)"
| "same_value_zero (VNum a) y = (y = VNum a)"
| "same_value_zero (VStr a) y = (y = VStr a)"
| "same_value_zero (VRef a c) y = (case y of VRef b d \<Rightarrow> a = b | _ \<Rightarrow> False)"

text \<open>\<open>xs.includes(v)\<close>: a scan from index 0.\<close>

fun includes_js :: "jsval list \<Rightarrow> jsval \<Rightarrow> bool" where
  "includes_js [] v = False"
| "includes_js (x # xs) v = (same_value_zero x v \<or> includes_js xs v)"

subsection \<open>Responses\<close>

text \<open>
  A response is the status code and what the handler hands to \<open>res.send\<close> (a text) or to
  \<open>res.json\<close> (the object \<open>{ users }\<close>, given by its one field). Express answers with
  status 200 when the handler sets none.
\<close>

datatype payload = Send string | Json_users "jsval list"

record response =
  status :: nat
  payload :: payload

subsection \<open>The three route handlers\<close>

definition get_root :: "jsval list \<Rightarrow> jsval list \<times> response" where
  "get_root users = (users, \<lparr>status = 200, payload = Send ''Hello, World!''\<rparr>)"

definition get_users :: "jsval list \<Rightarrow> jsval list \<times> response" where
  "get_users users = (users, \<lparr>status = 200, payload = Json_users users\<rparr>)"

definition post_users :: "jsval list \<Rightarrow> jsval \<Rightarrow> jsval list \<times> response" where
  "post_users users newUserId =
     (if \<not> to_boolean newUserId then
        (users, \<lparr>status = 400, payload = Send ''Missing user Id''\<rparr>)
      else if includes_js users newUserId then
        (users, \<lparr>status = 400, payload = Send ''User already exists''\<rparr>)
      else
        (users @ [newUserId],
         \<lparr>status = 201, payload = Send ''User registered successfully.''\<rparr>))"

subsection \<open>Request bodies\<close>

text \<open>
  \<open>bodyParser.json()\<close> leaves in \<open>req.body\<close> the object parsed from the request (the empty
  object when the request has no JSON body), here the map from its field names to their
  JSON values. Every parse builds new objects: an array or object found in the field
  \<open>userId\<close> of the request parsed as number \<open>a\<close> is the reference with address \<open>a\<close>.
\<close>

type_synonym req_body = "string \<rightharpoonup> json"

fun materialize :: "nat \<Rightarrow> json \<Rightarrow> jsval" where
  "materialize a JNull = VNull"
| "materialize a (JBool b) = VBool b"
| "materialize a (JNum n) = VNum n"
| "materialize a (JStr s) = VStr s"
| "materialize a (JArr xs) = VRef a (JArr xs)"
| "materialize a (JObj fs) = VRef a (JObj fs)"

text \<open>\<open>req.body.userId\<close>\<close>

definition body_userId :: "nat \<Rightarrow> req_body \<Rightarrow> jsval" where
  "body_userId a b = (case b ''userId'' of None \<Rightarrow> VUndefined | Some j \<Rightarrow> materialize a j)"

subsection \<open>The server process\<close>

text \<open>
  The state of the process: the array \<open>users\<close> and the number of request bodies parsed so
  far. The process starts with \<open>const users = []\<close>.
\<close>

datatype request = GET_root | GET_users | POST_users req_body

record server =
  users :: "jsval list"
  parsed :: nat

definition init_server :: server where
  "init_server = \<lparr>users = [], parsed = 0\<rparr>"

fun handle :: "server \<Rightarrow> request \<Rightarrow> server \<times> response" where
  "handle s GET_root = (s\<lparr>users := fst (get_root (users s))\<rparr>, snd (get_root (users s)))"
| "handle s GET_users = (s\<lparr>users := fst (get_users (users s))\<rparr>, snd (get_users (users s)))"
| "handle s (POST_users b) =
     (\<lparr>users = fst (post_users (users s) (body_userId (parsed s) b)),
       parsed = Suc (parsed s)\<rparr>,
      snd (post_users (users s) (body_userId (parsed s) b)))"

text \<open>Requests served one after the other, with the responses in order.\<close>

fun run :: "server \<Rightarrow> request list \<Rightarrow> server \<times> response list" where
  "run s [] = (s, [])"
| "run s (r # rs) =
     (case handle s r of (s', resp) \<Rightarrow>
        (case run s' rs of (s'', resps) \<Rightarrow> (s'', resp # resps)))"

subsection \<open>Predicates on the store\<close>

text \<open>No entry is found by \<open>includes\<close> among the entries after it.\<close>

fun unique_js :: "jsval list \<Rightarrow> bool" where
  "unique_js [] = True"
| "unique_js (x # xs) = (\<not> includes_js xs x \<and> unique_js xs)"

text \<open>
  The invariant of the running process: every entry is truthy, no two entries are
  identified by \<open>includes\<close>, and every stored object was parsed from an earlier request.
\<close>

definition store_inv :: "server \<Rightarrow> bool" where
  "store_inv s \<longleftrightarrow>
     (\<forall>x \<in> set (users s). to_boolean x)
     \<and> unique_js (users s)
     \<and> (\<forall>a c. VRef a c \<in> set (users s) \<longrightarrow> a < parsed s)"

text \<open>Texts compared without regard to the case of ASCII letters.\<close>

definition to_lower_char :: "char \<Rightarrow> char" where
  "to_lower_char c =
     (let n = (of_char c :: nat) in if 65 \<le> n \<and> n \<le> 90 then char_of (n + 32) else c)"

definition same_text_ignoring_case :: "string \<Rightarrow> string \<Rightarrow> bool" where
  "same_text_ignoring_case a b \<longleftrightarrow> map to_lower_char a = map to_lower_char b"

subsection \<open>The listening port\<close>

text \<open>
  \<open>process.env\<close> is a map from variable names to strings. The registry service has
  \<^verbatim>\<open>const PORT = 3000; ... app.listen(PORT, ...)\<close>
  and the hello-world server of the multi-stage build example has
  \<^verbatim>\<open>const port = process.env.PORT ... app.listen(port, ...)\<close>
  Each definition gives the value handed to \<open>app.listen\<close>.
\<close>

type_synonym environment = "string \<rightharpoonup> string"

definition PORT :: "environment \<Rightarrow> jsval" where
  "PORT env = VNum (Finite 3000)"

definition port :: "environment \<Rightarrow> jsval" where
  "port env = (case env ''PORT'' of None \<Rightarrow> VUndefined | Some v \<Rightarrow> VStr v)"

text \<open>
  The configuration as the specification words it: the value of an environment variable,
  and a fixed fallback when the variable is unset.
\<close>

definition spec_configured_port :: "string \<Rightarrow> jsval \<Rightarrow> environment \<Rightarrow> jsval" where
  "spec_configured_port name fallback env =
     (case env name of None \<Rightarrow> fallback | Some v \<Rightarrow> VStr v)"

section \<open>Equality, membership and the invariant\<close>

text \<open>
  \<open>SameValueZero\<close> is an equivalence; on a string it is equality, so for a string
  \<open>includes\<close> is membership.
\<close>

lemma same_value_zero_sym: "same_value_zero x y = same_value_zero y x"
  by (cases x; cases y) auto

lemma same_value_zero_refl: "same_value_zero x x"
  by (cases x) auto

lemma same_value_zero_str: "same_value_zero x (VStr u) \<longleftrightarrow> x = VStr u"
  by (cases x) auto

lemma includes_js_iff: "includes_js xs v \<longleftrightarrow> (\<exists>x \<in> set xs. same_value_zero x v)"
  by (induction xs) auto

lemma includes_js_append: "includes_js (xs @ ys) v \<longleftrightarrow> includes_js xs v \<or> includes_js ys v"
  by (induction xs) auto

lemma includes_js_str: "includes_js xs (VStr u) \<longleftrightarrow> VStr u \<in> set xs"
  by (induction xs) (auto simp: same_value_zero_str)

lemma unique_js_snoc: "unique_js (xs @ [v]) \<longleftrightarrow> unique_js xs \<and> \<not> includes_js xs v"
  by (induction xs) (auto simp: includes_js_append same_value_zero_sym)

lemma unique_js_distinct: "unique_js xs \<Longrightarrow> distinct xs"
  by (induction xs) (auto simp: includes_js_iff same_value_zero_refl)

lemma distinct_count_list_le: "distinct xs \<Longrightarrow> count_list xs x \<le> 1"
  by (induction xs) auto

text \<open>
  An object read from a request body has the address of that request.
\<close>

lemma materialize_ref: "VRef a' c = materialize a j \<Longrightarrow> a' = a"
  by (cases j) auto

lemma body_userId_ref: "VRef a' c = body_userId a b \<Longrightarrow> a' = a"
  by (auto simp: body_userId_def split: option.splits dest: materialize_ref)

text \<open>
  The three outcomes of a registration, and the two tests of the handler in terms of the
  value sent.
\<close>

lemma post_users_cases:
  "post_users us v = (us, \<lparr>status = 400, payload = Send ''Missing user Id''\<rparr>) \<and> \<not> to_boolean v
   \<or> post_users us v = (us, \<lparr>status = 400, payload = Send ''User already exists''\<rparr>)
       \<and> to_boolean v \<and> includes_js us v
   \<or> post_users us v = (us @ [v], \<lparr>status = 201, payload = Send ''User registered successfully.''\<rparr>)
       \<and> to_boolean v \<and> \<not> includes_js us v"
  by (simp add: post_users_def)


lemma body_userId_falsy_iff:
  "\<not> to_boolean (body_userId a b) \<longleftrightarrow>
     b ''userId'' \<in> {None, Some JNull, Some (JBool False), Some (JNum (Finite 0)), Some (JStr [])}"
proof (cases "b ''userId''")
  case None
  then show ?thesis by (simp add: body_userId_def)
next
  case (Some j)
  then show ?thesis by (cases j) (auto simp: body_userId_def)
qed


text \<open>
  Every request keeps the invariant and only ever extends the store at its end.
\<close>

lemma handle_inv: "store_inv s \<Longrightarrow> store_inv (fst (handle s r))"
proof (cases r)
  case GET_root
  then show ?thesis if "store_inv s" using that by (simp add: get_root_def store_inv_def)
next
  case GET_users
  then show ?thesis if "store_inv s" using that by (simp add: get_users_def store_inv_def)
next
  case (POST_users b)
  assume inv: "store_inv s"
  let ?v = "body_userId (parsed s) b"
  from post_users_cases [of "users s" ?v] show ?thesis
  proof (elim disjE conjE)
    assume "post_users (users s) ?v = (users s, \<lparr>status = 400, payload = Send ''Missing user Id''\<rparr>)"
    with inv POST_users show ?thesis by (auto simp: store_inv_def less_Suc_eq)
  next
    assume "post_users (users s) ?v = (users s, \<lparr>status = 400, payload = Send ''User already exists''\<rparr>)"
    with inv POST_users show ?thesis by (auto simp: store_inv_def less_Suc_eq)
  next
    assume "post_users (users s) ?v = (users s @ [?v], \<lparr>status = 201, payload = Send ''User registered successfully.''\<rparr>)"
      and "to_boolean ?v" and "\<not> includes_js (users s) ?v"
    with inv POST_users show ?thesis
      by (auto simp: store_inv_def less_Suc_eq unique_js_snoc dest: body_userId_ref)
  qed
qed

lemma run_append:
  "run s (rs @ rs') = (case run s rs of (s', out) \<Rightarrow> (case run s' rs' of (s'', out') \<Rightarrow> (s'', out @ out')))"
  by (induction rs arbitrary: s) (auto split: prod.splits)

lemma fst_run_Cons: "fst (run s (r # rs)) = fst (run (fst (handle s r)) rs)"
  by (simp split: prod.splits)

lemma fst_run_append: "fst (run s (rs @ rs')) = fst (run (fst (run s rs)) rs')"
  by (simp add: run_append split: prod.splits)

lemma run_inv: "store_inv s \<Longrightarrow> store_inv (fst (run s rs))"
proof (induction rs arbitrary: s)
  case Nil
  then show ?case by simp
next
  case (Cons r rs)
  from Cons.prems have "store_inv (fst (handle s r))" by (rule handle_inv)
  then have "store_inv (fst (run (fst (handle s r)) rs))" by (rule Cons.IH)
  then show ?case by (simp only: fst_run_Cons)
qed

lemma init_inv: "store_inv init_server"
  by (simp add: store_inv_def init_server_def)

lemma handle_extends: "\<exists>ys. users (fst (handle s r)) = users s @ ys"
  by (cases r) (auto simp: get_root_def get_users_def post_users_def)

lemma run_extends: "\<exists>ys. users (fst (run s rs)) = users s @ ys"
proof (induction rs arbitrary: s)
  case Nil
  then show ?case by simp
next
  case (Cons r rs)
  obtain ys where 1: "users (fst (handle s r)) = users s @ ys" using handle_extends by blast
  obtain zs where 2: "users (fst (run (fst (handle s r)) rs)) = users (fst (handle s r)) @ zs"
    using Cons.IH by blast
  from 1 2 show ?case by (simp only: fst_run_Cons) simp
qed

text \<open>
  Reads and repeated registrations of one string, served one after the other.
\<close>

lemma run_GET_users:
  "run s (replicate n GET_users) =
     (s, replicate n \<lparr>status = 200, payload = Json_users (users s)\<rparr>)"
  by (induction n) (simp_all add: get_users_def)

lemma run_POST_duplicates:
  assumes "u \<noteq> []" and "VStr u \<in> set (users s)" and "b ''userId'' = Some (JStr u)"
  shows "run s (replicate n (POST_users b)) =
           (s\<lparr>parsed := parsed s + n\<rparr>,
            replicate n \<lparr>status = 400, payload = Send ''User already exists''\<rparr>)"
  using assms
proof (induction n arbitrary: s)
  case 0
  then show ?case by simp
next
  case (Suc n)
  from Suc.prems have h: "handle s (POST_users b) =
      (s\<lparr>parsed := Suc (parsed s)\<rparr>, \<lparr>status = 400, payload = Send ''User already exists''\<rparr>)"
    by (simp add: body_userId_def post_users_def includes_js_str)
  from Suc.prems have "VStr u \<in> set (users (s\<lparr>parsed := Suc (parsed s)\<rparr>))" by simp
  with Suc.prems Suc.IH [of "s\<lparr>parsed := Suc (parsed s)\<rparr>"]
  have "run (s\<lparr>parsed := Suc (parsed s)\<rparr>) (replicate n (POST_users b)) =
      (s\<lparr>parsed := Suc (parsed s) + n\<rparr>,
       replicate n \<lparr>status = 400, payload = Send ''User already exists''\<rparr>)"
    by simp
  with h show ?case by (simp del: handle.simps)
qed

lemma run_same_registration:
  assumes "u \<noteq> []" and "VStr u \<notin> set (users s)" and "b ''userId'' = Some (JStr u)"
  shows "map status (snd (run s (replicate (Suc n) (POST_users b)))) = 201 # replicate n 400
         \<and> users (fst (run s (replicate (Suc n) (POST_users b)))) = users s @ [VStr u]
         \<and> count_list (users (fst (run s (replicate (Suc n) (POST_users b))))) (VStr u) = 1"
proof -
  let ?s1 = "\<lparr>users = users s @ [VStr u], parsed = Suc (parsed s)\<rparr>"
  from assms have h: "handle s (POST_users b) =
      (?s1, \<lparr>status = 201, payload = Send ''User registered successfully.''\<rparr>)"
    by (simp add: body_userId_def post_users_def includes_js_str)
  have "VStr u \<in> set (users ?s1)" by simp
  with assms have r: "run ?s1 (replicate n (POST_users b)) =
      (?s1\<lparr>parsed := parsed ?s1 + n\<rparr>,
       replicate n \<lparr>status = 400, payload = Send ''User already exists''\<rparr>)"
    by (intro run_POST_duplicates)
  from assms(2) have c: "count_list (users s @ [VStr u]) (VStr u) = 1" by simp
  from h r c show ?thesis by (simp del: handle.simps)
qed

section \<open>The store invariants\<close>

text \<open>
  C1. Whatever requests (health check, list users, register user) the fresh process has
  served, the store holds no identifier twice: no entry is found by \<open>includes\<close>, the
  comparison of the code, among the other entries, the entries are pairwise different,
  and every string occurs at most once. Insertion order is preserved: serving more
  requests only appends to the store, the earlier entries stay where they were.
\<close>

theorem store_unique_append_only:
  "unique_js (users (fst (run init_server rs)))
   \<and> distinct (users (fst (run init_server rs)))
   \<and> count_list (users (fst (run init_server rs))) (VStr u) \<le> 1
   \<and> (\<exists>ys. users (fst (run init_server (rs @ rs'))) = users (fst (run init_server rs)) @ ys)"
proof -
  have "store_inv (fst (run init_server rs))"
    using init_inv by (rule run_inv)
  then have u: "unique_js (users (fst (run init_server rs)))"
    by (simp add: store_inv_def)
  then have d: "distinct (users (fst (run init_server rs)))"
    by (rule unique_js_distinct)
  then have c: "count_list (users (fst (run init_server rs))) (VStr u) \<le> 1"
    by (rule distinct_count_list_le)
  have "\<exists>ys. users (fst (run (fst (run init_server rs)) rs')) = users (fst (run init_server rs)) @ ys"
    by (rule run_extends)
  then have e: "\<exists>ys. users (fst (run init_server (rs @ rs'))) = users (fst (run init_server rs)) @ ys"
    by (simp only: fst_run_append)
  from u d c e show ?thesis by blast
qed

section \<open>Registration\<close>

text \<open>
  C2. For every store and every identifier (a non-empty string) already in it, and in a
  store that the process can reach for every string already in it, a registration with
  that \<open>userId\<close> is answered with status 400 and the text \<open>User already exists\<close> (the
  specification's message up to letter case), and the store is unchanged. Hence
  registering an identifier that is not yet in the store twice in a row gives 201 and
  then 400, and the store gains that one entry.
\<close>

theorem post_users_duplicate:
  "(t \<noteq> [] \<and> VStr t \<in> set (users q) \<and> d ''userId'' = Some (JStr t) \<longrightarrow>
      handle q (POST_users d) =
        (q\<lparr>parsed := Suc (parsed q)\<rparr>,
         \<lparr>status = 400, payload = Send ''User already exists''\<rparr>)
      \<and> users (fst (handle q (POST_users d))) = users q)
   \<and> (VStr u \<in> set (users (fst (run init_server rs))) \<and> b ''userId'' = Some (JStr u) \<longrightarrow>
      handle (fst (run init_server rs)) (POST_users b) =
        ((fst (run init_server rs))\<lparr>parsed := Suc (parsed (fst (run init_server rs)))\<rparr>,
         \<lparr>status = 400, payload = Send ''User already exists''\<rparr>))
   \<and> (w \<noteq> [] \<and> VStr w \<notin> set (users s) \<and> c ''userId'' = Some (JStr w) \<longrightarrow>
      map status (snd (run s [POST_users c, POST_users c])) = [201, 400]
      \<and> users (fst (run s [POST_users c, POST_users c])) = users s @ [VStr w])
   \<and> same_text_ignoring_case ''User already exists'' ''user already exists''"
proof (intro conjI impI)
  assume h: "t \<noteq> [] \<and> VStr t \<in> set (users q) \<and> d ''userId'' = Some (JStr t)"
  then have p: "post_users (users q) (body_userId (parsed q) d) =
      (users q, \<lparr>status = 400, payload = Send ''User already exists''\<rparr>)"
    by (simp add: body_userId_def post_users_def includes_js_str)
  from p show "handle q (POST_users d) =
      (q\<lparr>parsed := Suc (parsed q)\<rparr>, \<lparr>status = 400, payload = Send ''User already exists''\<rparr>)"
    by simp
  from p show "users (fst (handle q (POST_users d))) = users q"
    by simp
next
  let ?s = "fst (run init_server rs)"
  assume h: "VStr u \<in> set (users ?s) \<and> b ''userId'' = Some (JStr u)"
  have "store_inv ?s" using init_inv by (rule run_inv)
  with h have "to_boolean (VStr u)" unfolding store_inv_def by blast
  moreover from h have "includes_js (users ?s) (VStr u)" by (simp add: includes_js_str)
  ultimately have "post_users (users ?s) (VStr u) =
      (users ?s, \<lparr>status = 400, payload = Send ''User already exists''\<rparr>)"
    by (simp add: post_users_def)
  with h show "handle ?s (POST_users b) =
      (?s\<lparr>parsed := Suc (parsed ?s)\<rparr>, \<lparr>status = 400, payload = Send ''User already exists''\<rparr>)"
    by (simp add: body_userId_def)
next
  assume h: "w \<noteq> [] \<and> VStr w \<notin> set (users s) \<and> c ''userId'' = Some (JStr w)"
  then show "map status (snd (run s [POST_users c, POST_users c])) = [201, 400]"
    by (simp add: body_userId_def post_users_def includes_js_str includes_js_append)
next
  assume h: "w \<noteq> [] \<and> VStr w \<notin> set (users s) \<and> c ''userId'' = Some (JStr w)"
  then show "users (fst (run s [POST_users c, POST_users c])) = users s @ [VStr w]"
    by (simp add: body_userId_def post_users_def includes_js_str includes_js_append)
next
  show "same_text_ignoring_case ''User already exists'' ''user already exists''"
    by code_simp
qed

theorem post_users_duplicate_witness:
  "''carol'' \<noteq> [] \<and> VStr ''carol'' \<in> set (users \<lparr>users = [VStr ''carol''], parsed = 5\<rparr>)
   \<and> [''userId'' \<mapsto> JStr ''carol''] ''userId'' = Some (JStr ''carol'')
   \<and> handle \<lparr>users = [VStr ''carol''], parsed = 5\<rparr> (POST_users [''userId'' \<mapsto> JStr ''carol'']) =
        (\<lparr>users = [VStr ''carol''], parsed = 6\<rparr>,
         \<lparr>status = 400, payload = Send ''User already exists''\<rparr>)
   \<and> VStr ''alice'' \<in> set (users (fst (run init_server [POST_users [''userId'' \<mapsto> JStr ''alice'']])))
   \<and> [''userId'' \<mapsto> JStr ''alice''] ''userId'' = Some (JStr ''alice'')
   \<and> handle (fst (run init_server [POST_users [''userId'' \<mapsto> JStr ''alice'']]))
        (POST_users [''userId'' \<mapsto> JStr ''alice'']) =
        (\<lparr>users = [VStr ''alice''], parsed = 2\<rparr>,
         \<lparr>status = 400, payload = Send ''User already exists''\<rparr>)
   \<and> ''bob'' \<noteq> [] \<and> VStr ''bob'' \<notin> set (users init_server)
   \<and> map status (snd (run init_server
        [POST_users [''userId'' \<mapsto> JStr ''bob''], POST_users [''userId'' \<mapsto> JStr ''bob'']]))
       = [201, 400]"
proof -
  have r: "fst (run init_server [POST_users [''userId'' \<mapsto> JStr ''alice'']])
      = \<lparr>users = [VStr ''alice''], parsed = 1\<rparr>"
    by (simp add: init_server_def body_userId_def post_users_def)
  have h1: "VStr ''alice'' \<in> set (users (fst (run init_server [POST_users [''userId'' \<mapsto> JStr ''alice'']])))
      \<and> [''userId'' \<mapsto> JStr ''alice''] ''userId'' = Some (JStr ''alice'')"
    by (simp only: r) simp
  have h2: "''bob'' \<noteq> [] \<and> VStr ''bob'' \<notin> set (users init_server)
      \<and> [''userId'' \<mapsto> JStr ''bob''] ''userId'' = Some (JStr ''bob'')"
    by (simp add: init_server_def)
  have h3: "''carol'' \<noteq> [] \<and> VStr ''carol'' \<in> set (users \<lparr>users = [VStr ''carol''], parsed = 5\<rparr>)
      \<and> [''userId'' \<mapsto> JStr ''carol''] ''userId'' = Some (JStr ''carol'')"
    by simp
  from post_users_duplicate [where t = "''carol''" and q = "\<lparr>users = [VStr ''carol''], parsed = 5\<rparr>"
      and d = "[''userId'' \<mapsto> JStr ''carol'']" and u = "''alice''"
      and rs = "[POST_users [''userId'' \<mapsto> JStr ''alice'']]"
      and b = "[''userId'' \<mapsto> JStr ''alice'']" and w = "''bob''" and s = init_server
      and c = "[''userId'' \<mapsto> JStr ''bob'']"] h1 h2 h3
  have q: "handle \<lparr>users = [VStr ''carol''], parsed = 5\<rparr> (POST_users [''userId'' \<mapsto> JStr ''carol'']) =
        (\<lparr>users = [VStr ''carol''], parsed = 5\<rparr>\<lparr>parsed := Suc (parsed \<lparr>users = [VStr ''carol''], parsed = 5\<rparr>)\<rparr>,
         \<lparr>status = 400, payload = Send ''User already exists''\<rparr>)"
    and "handle (fst (run init_server [POST_users [''userId'' \<mapsto> JStr ''alice'']]))
        (POST_users [''userId'' \<mapsto> JStr ''alice'']) =
        ((fst (run init_server [POST_users [''userId'' \<mapsto> JStr ''alice'']]))
           \<lparr>parsed := Suc (parsed (fst (run init_server [POST_users [''userId'' \<mapsto> JStr ''alice'']])))\<rparr>,
         \<lparr>status = 400, payload = Send ''User already exists''\<rparr>)"
    and s: "map status (snd (run init_server
        [POST_users [''userId'' \<mapsto> JStr ''bob''], POST_users [''userId'' \<mapsto> JStr ''bob'']]))
       = [201, 400]"
    by blast+
  then have "handle (fst (run init_server [POST_users [''userId'' \<mapsto> JStr ''alice'']]))
        (POST_users [''userId'' \<mapsto> JStr ''alice'']) =
        (\<lparr>users = [VStr ''alice''], parsed = 2\<rparr>,
         \<lparr>status = 400, payload = Send ''User already exists''\<rparr>)"
    by (simp only: r) simp
  moreover from q have "handle \<lparr>users = [VStr ''carol''], parsed = 5\<rparr>
        (POST_users [''userId'' \<mapsto> JStr ''carol'']) =
        (\<lparr>users = [VStr ''carol''], parsed = 6\<rparr>,
         \<lparr>status = 400, payload = Send ''User already exists''\<rparr>)"
    by simp
  ultimately show ?thesis using h1 h2 h3 s by blast
qed

text \<open>
  C3. For every store, a registration whose body has no \<open>userId\<close>, or a falsy one
  (\<open>null\<close>, \<open>false\<close>, \<open>0\<close> or the empty string), is answered with status 400 and the
  text \<open>Missing user Id\<close> (the specification's message up to letter case), and the
  store is unchanged.
\<close>

theorem post_users_missing_id:
  assumes "b ''userId'' \<in> {None, Some JNull, Some (JBool False), Some (JNum (Finite 0)), Some (JStr [])}"
  shows "handle s (POST_users b) =
           (s\<lparr>parsed := Suc (parsed s)\<rparr>, \<lparr>status = 400, payload = Send ''Missing user Id''\<rparr>)
         \<and> users (fst (handle s (POST_users b))) = users s
         \<and> same_text_ignoring_case ''Missing user Id'' ''missing user id''"
proof -
  from assms have f: "\<not> to_boolean (body_userId (parsed s) b)"
    by (simp only: body_userId_falsy_iff)
  then have p: "post_users (users s) (body_userId (parsed s) b) =
      (users s, \<lparr>status = 400, payload = Send ''Missing user Id''\<rparr>)"
    by (simp add: post_users_def)
  have t: "same_text_ignoring_case ''Missing user Id'' ''missing user id''"
    by code_simp
  from p t show ?thesis by simp
qed

theorem post_users_missing_id_witness:
  "Map.empty ''userId'' \<in> {None, Some JNull, Some (JBool False), Some (JNum (Finite 0)), Some (JStr [])}
   \<and> handle \<lparr>users = [VStr ''alice''], parsed = 1\<rparr> (POST_users Map.empty) =
        (\<lparr>users = [VStr ''alice''], parsed = 2\<rparr>,
         \<lparr>status = 400, payload = Send ''Missing user Id''\<rparr>)"
proof -
  have h: "Map.empty ''userId'' \<in>
      {None, Some JNull, Some (JBool False), Some (JNum (Finite 0)), Some (JStr [])}"
    by simp
  from post_users_missing_id [OF h, of "\<lparr>users = [VStr ''alice''], parsed = 1\<rparr>"] h
  show ?thesis by simp
qed

text \<open>
  C4. For every store and every truthy \<open>userId\<close> that \<open>includes\<close> does not find in it,
  and so for every non-empty string that is not in the store, the registration appends the
  identifier at the end of the store and answers 201 with the success text: the store is
  one entry longer, its earlier entries are as they were, and its last entry is the new
  identifier.
\<close>

theorem post_users_registers:
  "(to_boolean v \<and> \<not> includes_js us v \<longrightarrow>
      post_users us v =
        (us @ [v], \<lparr>status = 201, payload = Send ''User registered successfully.''\<rparr>))
   \<and> (u \<noteq> [] \<and> VStr u \<notin> set (users s) \<and> b ''userId'' = Some (JStr u) \<longrightarrow>
      handle s (POST_users b) =
        (\<lparr>users = users s @ [VStr u], parsed = Suc (parsed s)\<rparr>,
         \<lparr>status = 201, payload = Send ''User registered successfully.''\<rparr>)
      \<and> length (users (fst (handle s (POST_users b)))) = Suc (length (users s))
      \<and> take (length (users s)) (users (fst (handle s (POST_users b)))) = users s
      \<and> last (users (fst (handle s (POST_users b)))) = VStr u)"
proof (intro conjI impI)
  assume "to_boolean v \<and> \<not> includes_js us v"
  then show "post_users us v =
      (us @ [v], \<lparr>status = 201, payload = Send ''User registered successfully.''\<rparr>)"
    by (simp add: post_users_def)
next
  assume h: "u \<noteq> [] \<and> VStr u \<notin> set (users s) \<and> b ''userId'' = Some (JStr u)"
  then have p: "post_users (users s) (body_userId (parsed s) b) =
      (users s @ [VStr u], \<lparr>status = 201, payload = Send ''User registered successfully.''\<rparr>)"
    by (simp add: body_userId_def post_users_def includes_js_str)
  from p show "handle s (POST_users b) =
      (\<lparr>users = users s @ [VStr u], parsed = Suc (parsed s)\<rparr>,
       \<lparr>status = 201, payload = Send ''User registered successfully.''\<rparr>)"
    by simp
  from p show "length (users (fst (handle s (POST_users b)))) = Suc (length (users s))"
    by simp
  from p show "take (length (users s)) (users (fst (handle s (POST_users b)))) = users s"
    by simp
  from p show "last (users (fst (handle s (POST_users b)))) = VStr u"
    by simp
qed

theorem post_users_registers_witness:
  "to_boolean (VNum (Finite 7)) \<and> \<not> includes_js [VStr ''alice''] (VNum (Finite 7))
   \<and> post_users [VStr ''alice''] (VNum (Finite 7)) =
       ([VStr ''alice'', VNum (Finite 7)],
        \<lparr>status = 201, payload = Send ''User registered successfully.''\<rparr>)
   \<and> ''bob'' \<noteq> [] \<and> VStr ''bob'' \<notin> set (users \<lparr>users = [VStr ''alice''], parsed = 1\<rparr>)
   \<and> [''userId'' \<mapsto> JStr ''bob''] ''userId'' = Some (JStr ''bob'')
   \<and> handle \<lparr>users = [VStr ''alice''], parsed = 1\<rparr> (POST_users [''userId'' \<mapsto> JStr ''bob'']) =
       (\<lparr>users = [VStr ''alice'', VStr ''bob''], parsed = 2\<rparr>,
        \<lparr>status = 201, payload = Send ''User registered successfully.''\<rparr>)"
proof -
  have h1: "to_boolean (VNum (Finite 7)) \<and> \<not> includes_js [VStr ''alice''] (VNum (Finite 7))"
    by simp
  have h2: "''bob'' \<noteq> [] \<and> VStr ''bob'' \<notin> set (users \<lparr>users = [VStr ''alice''], parsed = 1\<rparr>)
      \<and> [''userId'' \<mapsto> JStr ''bob''] ''userId'' = Some (JStr ''bob'')"
    by simp
  from post_users_registers [of "VNum (Finite 7)" "[VStr ''alice'']" "''bob''"
      "\<lparr>users = [VStr ''alice''], parsed = 1\<rparr>" "[''userId'' \<mapsto> JStr ''bob'']"] h1 h2
  show ?thesis by simp
qed

text \<open>
  C5. For every store and every non-empty string not in it, registering the string and
  then listing the users gives a list in which the string occurs exactly once.
\<close>

theorem register_then_list:
  assumes "u \<noteq> []" and "VStr u \<notin> set (users s)" and "b ''userId'' = Some (JStr u)"
  shows "run s [POST_users b, GET_users] =
           (\<lparr>users = users s @ [VStr u], parsed = Suc (parsed s)\<rparr>,
            [\<lparr>status = 201, payload = Send ''User registered successfully.''\<rparr>,
             \<lparr>status = 200, payload = Json_users (users s @ [VStr u])\<rparr>])
         \<and> count_list (users s @ [VStr u]) (VStr u) = 1"
proof -
  from assms have p: "post_users (users s) (body_userId (parsed s) b) =
      (users s @ [VStr u], \<lparr>status = 201, payload = Send ''User registered successfully.''\<rparr>)"
    by (simp add: body_userId_def post_users_def includes_js_str)
  from assms(2) have c: "count_list (users s @ [VStr u]) (VStr u) = 1"
    by simp
  from p c show ?thesis by (simp add: get_users_def)
qed

theorem register_then_list_witness:
  "''bob'' \<noteq> [] \<and> VStr ''bob'' \<notin> set (users \<lparr>users = [VStr ''alice''], parsed = 1\<rparr>)
   \<and> [''userId'' \<mapsto> JStr ''bob''] ''userId'' = Some (JStr ''bob'')
   \<and> run \<lparr>users = [VStr ''alice''], parsed = 1\<rparr> [POST_users [''userId'' \<mapsto> JStr ''bob''], GET_users] =
       (\<lparr>users = [VStr ''alice'', VStr ''bob''], parsed = 2\<rparr>,
        [\<lparr>status = 201, payload = Send ''User registered successfully.''\<rparr>,
         \<lparr>status = 200, payload = Json_users [VStr ''alice'', VStr ''bob'']\<rparr>])
   \<and> count_list [VStr ''alice'', VStr ''bob''] (VStr ''bob'') = 1"
proof -
  have h1: "''bob'' \<noteq> []" by simp
  have h2: "VStr ''bob'' \<notin> set (users \<lparr>users = [VStr ''alice''], parsed = 1\<rparr>)" by simp
  have h3: "[''userId'' \<mapsto> JStr ''bob''] ''userId'' = Some (JStr ''bob'')" by simp
  from register_then_list [of "''bob''" "\<lparr>users = [VStr ''alice''], parsed = 1\<rparr>"
      "[''userId'' \<mapsto> JStr ''bob'']"] h1 h2 h3
  show ?thesis by simp
qed



section \<open>Listing the users\<close>

text \<open>
  C6. For every store, \<open>GET /users\<close> answers status 200 with the object whose field
  \<open>users\<close> is the store, entry by entry in order, and changes nothing. On the fresh
  process the list is empty, and any number of reads in a row give the same answer.
\<close>

theorem get_users_lists_store:
  "handle s GET_users = (s, \<lparr>status = 200, payload = Json_users (users s)\<rparr>)
   \<and> handle init_server GET_users = (init_server, \<lparr>status = 200, payload = Json_users []\<rparr>)
   \<and> run s (replicate n GET_users) =
       (s, replicate n \<lparr>status = 200, payload = Json_users (users s)\<rparr>)"
  by (simp add: run_GET_users) (simp add: get_users_def init_server_def)

section \<open>The health check\<close>

text \<open>
  C9. For every store, \<open>GET /\<close> answers \<open>Hello, World!\<close> with status 200 and leaves the
  store (and the whole server state) as it was.
\<close>

theorem get_root_fixed_response:
  "get_root us = (us, \<lparr>status = 200, payload = Send ''Hello, World!''\<rparr>)
   \<and> handle s GET_root = (s, \<lparr>status = 200, payload = Send ''Hello, World!''\<rparr>)"
  by (simp add: get_root_def)

section \<open>The listening port\<close>

text \<open>
  C7, as the code has it. The registry service listens on the constant 3000 whatever the
  environment holds. The hello-world server hands the value of the variable \<open>PORT\<close> to
  \<open>listen\<close>, and \<open>undefined\<close> when the variable is unset: it has no fallback.
\<close>

theorem port_configuration:
  "PORT env = VNum (Finite 3000)
   \<and> port (env(''PORT'' \<mapsto> v)) = VStr v
   \<and> port (env(''PORT'' := None)) = VUndefined"
  by (simp add: PORT_def port_def)

text \<open>
  C7 as stated fails in both programs: with \<open>PORT=8080\<close> in the environment the
  registry service still listens on 3000, as it does with no variable at all, and with the
  variable unset the hello-world server has no port to fall back on.
\<close>

theorem port_fallback_counterexample:
  "PORT [''PORT'' \<mapsto> ''8080''] = PORT Map.empty
   \<and> PORT [''PORT'' \<mapsto> ''8080'']
       \<noteq> spec_configured_port ''PORT'' (VNum (Finite 3000)) [''PORT'' \<mapsto> ''8080'']
   \<and> port Map.empty = VUndefined
   \<and> port Map.empty \<noteq> spec_configured_port ''PORT'' (VNum (Finite 3000)) Map.empty"
  by (simp add: PORT_def port_def spec_configured_port_def)

end
